theory Spec2Isabelle
  imports Main "HOL-Library.Sublist"
begin

section \<open>Website Buddy Actions: the handlers of src/index.js\<close>

text \<open>
  The four route handlers of \<^verbatim>\<open>src/index.js\<close> that publish files are embedded here:
  \<^verbatim>\<open>POST /github/get-file\<close>, \<^verbatim>\<open>POST /github/put-file\<close>, \<^verbatim>\<open>POST /deploy/upload-ftp\<close> and
  \<^verbatim>\<open>POST /deploy/upload-zip\<close>, with the helper \<^verbatim>\<open>uploadBuffer\<close>.

  The remote systems are parameters of the handlers. Every call a handler makes on a
  remote system is appended to a trace, so the order and the number of calls can be
  stated. A call that throws is the value \<open>Inl\<close> with the message of the exception;
  each \<^verbatim>\<open>try\<close>/\<^verbatim>\<open>catch\<close>/\<^verbatim>\<open>finally\<close> of the source is a case distinction on it.
  The fields of a request body are strings, or absent (\<open>None\<close>, JavaScript's
  \<^verbatim>\<open>undefined\<close>). The \<^verbatim>\<open>requireKey\<close> middleware runs before a handler and is not part
  of it.
\<close>

subsection \<open>Replies\<close>

type_synonym buffer = string

text \<open>
  The two conversions of \<^verbatim>\<open>Buffer\<close> are kept as they are written, not computed:
  \<open>Base64 s\<close> is \<^verbatim>\<open>Buffer.from(s, "utf-8").toString("base64")\<close>, and \<open>FromBase64 c\<close> is
  \<^verbatim>\<open>Buffer.from(c, "base64").toString("utf-8")\<close>.
\<close>

datatype base64 = Base64 string

datatype decoded = FromBase64 string

datatype body =
    ErrorBody string                  \<comment> \<open>\<^verbatim>\<open>{ error: message }\<close>\<close>
  | TextBody decoded                  \<comment> \<open>\<^verbatim>\<open>res.send(text)\<close>\<close>
  | PutOk string "string option"      \<comment> \<open>\<^verbatim>\<open>{ ok: true, path, branch, committed: true }\<close>\<close>
  | FtpOk string                      \<comment> \<open>\<^verbatim>\<open>{ ok: true, uploaded: remotePath }\<close>\<close>
  | ZipOk nat                         \<comment> \<open>\<^verbatim>\<open>{ ok: true, uploaded: entries.length }\<close>\<close>

datatype reply = Reply (reply_status: nat) (reply_body: body)

text \<open>JavaScript's \<^verbatim>\<open>!x\<close> on a field that is a string or absent: the empty string
  and \<^verbatim>\<open>undefined\<close> are falsy.\<close>

fun falsy :: "string option \<Rightarrow> bool" where
  "falsy None = True"
| "falsy (Some s) = (s = [])"

subsection \<open>Strings: split, join, replace\<close>

text \<open>\<^verbatim>\<open>s.split("/")\<close>: the pieces between the separators; the empty string gives
  one empty piece.\<close>

fun js_split :: "char \<Rightarrow> string \<Rightarrow> string list" where
  "js_split c [] = [Nil]"
| "js_split c (x # xs) =
     (if x = c then [] # js_split c xs
      else (case js_split c xs of [] \<Rightarrow> [x # Nil] | w # ws \<Rightarrow> (x # w) # ws))"

text \<open>\<^verbatim>\<open>xs.join("/")\<close>.\<close>

fun js_join :: "string \<Rightarrow> string list \<Rightarrow> string" where
  "js_join sep [] = []"
| "js_join sep [x] = x"
| "js_join sep (x # y # ys) = x @ sep @ js_join sep (y # ys)"

text \<open>\<^verbatim>\<open>name.replace(/^\/+/, "")\<close>: the slashes at the start of the name are removed.\<close>

definition strip_leading_slashes :: "string \<Rightarrow> string" where
  "strip_leading_slashes s = dropWhile (\<lambda>c. c = CHR ''/'') s"

text \<open>Line 137: \<^verbatim>\<open>basePath + "/" + e.entryName.replace(/^\/+/, "")\<close>.\<close>

definition remote_path :: "string \<Rightarrow> string \<Rightarrow> string" where
  "remote_path basePath entryName = basePath @ ''/'' @ strip_leading_slashes entryName"

text \<open>Lines 87 and 88 of \<^verbatim>\<open>uploadBuffer\<close>:
  \<^verbatim>\<open>parts = remotePath.split("/").filter(Boolean)\<close> and \<^verbatim>\<open>dirs = parts.slice(0, -1)\<close>.\<close>

definition path_parts :: "string \<Rightarrow> string list" where
  "path_parts remotePath = filter (\<lambda>s. s \<noteq> []) (js_split CHR ''/'' remotePath)"

definition path_dirs :: "string \<Rightarrow> string list" where
  "path_dirs remotePath = butlast (path_parts remotePath)"

text \<open>Two slashes in a row somewhere in a path.\<close>

fun double_slash :: "string \<Rightarrow> bool" where
  "double_slash (a # b # cs) = ((a = CHR ''/'' \<and> b = CHR ''/'') \<or> double_slash (b # cs))"
| "double_slash _ = False"

subsection \<open>The transfer session\<close>

text \<open>
  The calls of the handlers on the \<^verbatim>\<open>basic-ftp\<close> client. What a call does is not in the
  source: the client, with the server behind it, is a function from the calls made so
  far and the call made now to the message of the exception the call throws, or \<open>None\<close>
  when it returns. A theorem stated for every such function holds whatever the library
  and the server do. \<^verbatim>\<open>client.close()\<close> is not awaited and does not throw; it is recorded
  without asking the function.
\<close>

datatype ftp_call =
    Access
  | EnsureDir string
  | UploadFrom buffer string
  | Close

type_synonym ftp_server = "ftp_call list \<Rightarrow> ftp_call \<Rightarrow> string option"

definition ftp_do :: "ftp_server \<Rightarrow> ftp_call \<Rightarrow> ftp_call list \<Rightarrow> ftp_call list \<times> (string + unit)" where
  "ftp_do srv c tr =
     (tr @ [c], case srv tr c of Some m \<Rightarrow> Inl m | None \<Rightarrow> Inr ())"

text \<open>\<^verbatim>\<open>uploadBuffer(client, remotePath, buffer)\<close>, lines 86 to 93.\<close>

definition uploadBuffer ::
  "ftp_server \<Rightarrow> string \<Rightarrow> buffer \<Rightarrow> ftp_call list \<Rightarrow> ftp_call list \<times> (string + unit)" where
  "uploadBuffer srv remotePath buffer tr =
     (let dirs = path_dirs remotePath in
      case (if dirs \<noteq> [] then ftp_do srv (EnsureDir (''/'' @ js_join ''/'' dirs)) tr
            else (tr, Inr ())) of
        (tr1, Inl m) \<Rightarrow> (tr1, Inl m)
      | (tr1, Inr _) \<Rightarrow> ftp_do srv (UploadFrom buffer remotePath) tr1)"

subsection \<open>POST /deploy/upload-ftp\<close>

record ftp_request =
  ftp_file :: "buffer option"          \<comment> \<open>\<^verbatim>\<open>req.file\<close>, its buffer\<close>
  ftp_remotePath :: "string option"    \<comment> \<open>\<^verbatim>\<open>req.body.remotePath\<close>\<close>

text \<open>The \<^verbatim>\<open>try\<close> block of lines 98 to 110.\<close>

definition deploy_upload_ftp_try :: "ftp_server \<Rightarrow> ftp_request \<Rightarrow> ftp_call list \<times> reply" where
  "deploy_upload_ftp_try srv req =
     (case ftp_file req of
        None \<Rightarrow> ([], Reply 400 (ErrorBody ''No file. Use field name 'file'.''))
      | Some buf \<Rightarrow>
          (let remotePath = (case ftp_remotePath req of None \<Rightarrow> ''/htdocs/index.html'' | Some p \<Rightarrow> p) in
           case ftp_do srv Access [] of
             (tr1, Inl m) \<Rightarrow> (tr1, Reply 500 (ErrorBody m))
           | (tr1, Inr _) \<Rightarrow>
               (case uploadBuffer srv remotePath buf tr1 of
                  (tr2, Inl m) \<Rightarrow> (tr2, Reply 500 (ErrorBody m))
                | (tr2, Inr _) \<Rightarrow> (tr2, Reply 200 (FtpOk remotePath)))))"

text \<open>The handler: the \<^verbatim>\<open>try\<close> block, then \<^verbatim>\<open>finally { client.close(); }\<close>.\<close>

definition deploy_upload_ftp :: "ftp_server \<Rightarrow> ftp_request \<Rightarrow> ftp_call list \<times> reply" where
  "deploy_upload_ftp srv req =
     (case deploy_upload_ftp_try srv req of (tr, rep) \<Rightarrow> (tr @ [Close], rep))"

subsection \<open>POST /deploy/upload-zip\<close>

text \<open>An entry of the archive, as \<^verbatim>\<open>adm-zip\<close> gives it: \<^verbatim>\<open>e.entryName\<close>,
  \<^verbatim>\<open>e.isDirectory\<close> and \<^verbatim>\<open>e.getData()\<close>, which throws on an entry it cannot
  decompress.\<close>

record zip_entry =
  entryName :: string
  isDirectory :: bool
  getData :: "string + buffer"

text \<open>\<^verbatim>\<open>new AdmZip(buffer)\<close> followed by \<^verbatim>\<open>zip.getEntries()\<close>: the entries in the order
  of the archive, or the message of the exception.\<close>

type_synonym zip_parser = "buffer \<Rightarrow> string + zip_entry list"

record zip_request =
  zip_file :: "buffer option"          \<comment> \<open>\<^verbatim>\<open>req.file\<close>, its buffer\<close>
  zip_basePath :: "string option"      \<comment> \<open>\<^verbatim>\<open>req.body.basePath\<close>\<close>

text \<open>The loop of lines 135 to 139.\<close>

fun upload_entries ::
  "ftp_server \<Rightarrow> string \<Rightarrow> zip_entry list \<Rightarrow> ftp_call list \<Rightarrow> ftp_call list \<times> (string + unit)" where
  "upload_entries srv basePath [] tr = (tr, Inr ())"
| "upload_entries srv basePath (e # es) tr =
     (if isDirectory e then upload_entries srv basePath es tr
      else
        (let remote = remote_path basePath (entryName e) in
         case getData e of
           Inl m \<Rightarrow> (tr, Inl m)
         | Inr d \<Rightarrow>
             (case uploadBuffer srv remote d tr of
                (tr1, Inl m) \<Rightarrow> (tr1, Inl m)
              | (tr1, Inr _) \<Rightarrow> upload_entries srv basePath es tr1)))"

text \<open>The \<^verbatim>\<open>try\<close> block of lines 122 to 141.\<close>

definition deploy_upload_zip_try ::
  "ftp_server \<Rightarrow> zip_parser \<Rightarrow> zip_request \<Rightarrow> ftp_call list \<times> reply" where
  "deploy_upload_zip_try srv parse req =
     (case zip_file req of
        None \<Rightarrow> ([], Reply 400 (ErrorBody ''No zip uploaded. Use field name 'zip'.''))
      | Some buf \<Rightarrow>
          (let basePath = (case zip_basePath req of None \<Rightarrow> ''/htdocs'' | Some b \<Rightarrow> b) in
           case ftp_do srv Access [] of
             (tr1, Inl m) \<Rightarrow> (tr1, Reply 500 (ErrorBody m))
           | (tr1, Inr _) \<Rightarrow>
               (case parse buf of
                  Inl m \<Rightarrow> (tr1, Reply 500 (ErrorBody m))
                | Inr entries \<Rightarrow>
                    (case upload_entries srv basePath entries tr1 of
                       (tr2, Inl m) \<Rightarrow> (tr2, Reply 500 (ErrorBody m))
                     | (tr2, Inr _) \<Rightarrow> (tr2, Reply 200 (ZipOk (length entries)))))))"

definition deploy_upload_zip ::
  "ftp_server \<Rightarrow> zip_parser \<Rightarrow> zip_request \<Rightarrow> ftp_call list \<times> reply" where
  "deploy_upload_zip srv parse req =
     (case deploy_upload_zip_try srv parse req of (tr, rep) \<Rightarrow> (tr @ [Close], rep))"

text \<open>What a trace says: the uploads in it, and how often the session was closed.\<close>

fun uploads :: "ftp_call list \<Rightarrow> (string \<times> buffer) list" where
  "uploads [] = []"
| "uploads (UploadFrom d p # cs) = (p, d) # uploads cs"
| "uploads (_ # cs) = uploads cs"

definition closes :: "ftp_call list \<Rightarrow> nat" where
  "closes tr = length (filter (\<lambda>c. c = Close) tr)"

text \<open>Every call returns. This is a client and a server on which nothing goes wrong; it
  is not \<^verbatim>\<open>basic-ftp\<close> once a request reaches the upload of line 92 (see \<open>basic_ftp\<close>), and
  is used only for requests that make no upload call.\<close>

definition accepting :: ftp_server where
  "accepting tr c = None"

text \<open>
  The \<^verbatim>\<open>basic-ftp\<close> client on a server that accepts every command. \<^verbatim>\<open>client.uploadFrom\<close>
  takes a readable stream or the path of a local file. Line 92 gives it
  \<^verbatim>\<open>Buffer.from(buffer)\<close>, which is neither: the library calls \<^verbatim>\<open>source.once\<close> on it
  before it sends a command, and that throws a \<^verbatim>\<open>TypeError\<close> with the message below,
  whatever the server is. The connection and \<^verbatim>\<open>ensureDir\<close> return.
\<close>

definition basic_ftp :: ftp_server where
  "basic_ftp tr c =
     (case c of UploadFrom source toRemotePath \<Rightarrow> Some ''source.once is not a function''
      | _ \<Rightarrow> None)"

text \<open>The call of line 90 for a remote path.\<close>

definition ensure_call :: "string \<Rightarrow> ftp_call" where
  "ensure_call p = EnsureDir (''/'' @ js_join ''/'' (path_dirs p))"

text \<open>In a run of calls, every upload to a path with directories comes right after the
  call that ensures them.\<close>

definition dirs_first :: "ftp_call list \<Rightarrow> bool" where
  "dirs_first cs \<longleftrightarrow>
     (\<forall>pre d p post. cs = pre @ UploadFrom d p # post \<and> path_dirs p \<noteq> []
        \<longrightarrow> (\<exists>pre'. pre = pre' @ [ensure_call p]))"

text \<open>In a run of calls \<open>cs\<close> made after the calls \<open>tr\<close>, a call that throws is the last
  one, and its message is the result of the run.\<close>

definition fail_last :: "ftp_server \<Rightarrow> ftp_call list \<Rightarrow> ftp_call list \<Rightarrow> string + unit \<Rightarrow> bool" where
  "fail_last srv tr cs r \<longleftrightarrow>
     (\<forall>pre c post m. cs = pre @ c # post \<and> srv (tr @ pre) c = Some m \<longrightarrow> post = [] \<and> r = Inl m)"

text \<open>The uploads an archive asks for, in the order of the archive: for every entry that
  is not a directory, its remote path and its data. The upload calls of a trace, in the
  same form.\<close>

definition expected_uploads :: "string \<Rightarrow> zip_entry list \<Rightarrow> (string \<times> (string + buffer)) list" where
  "expected_uploads base es =
     map (\<lambda>e. (remote_path base (entryName e), getData e)) (filter (\<lambda>e. \<not> isDirectory e) es)"

definition upload_calls :: "ftp_call list \<Rightarrow> (string \<times> (string + buffer)) list" where
  "upload_calls cs = map (\<lambda>(p, d). (p, Inr d)) (uploads cs)"

subsection \<open>The versioned store\<close>

text \<open>
  The two calls of the handlers on the \<^verbatim>\<open>Octokit\<close> client, \<^verbatim>\<open>repos.getContent\<close> and
  \<^verbatim>\<open>repos.createOrUpdateFileContents\<close>. An exception of the client has the status of
  the store's answer and a message.
\<close>

record store_error =
  err_status :: nat
  err_message :: string

record get_args =
  g_owner :: string
  g_repo :: string
  g_path :: string
  g_ref :: "string option"

text \<open>\<^verbatim>\<open>data\<close> of \<^verbatim>\<open>getContent\<close>: an array for a directory (the paths of its items),
  otherwise one object, whose properties \<^verbatim>\<open>sha\<close> and \<^verbatim>\<open>content\<close> are present or not.\<close>

datatype content_data =
    Listing "string list"
  | Single (obj_sha: "string option") (obj_content: "string option")

fun is_array :: "content_data \<Rightarrow> bool" where
  "is_array (Listing _) = True"
| "is_array (Single _ _) = False"

text \<open>\<^verbatim>\<open>"sha" in data\<close> and \<^verbatim>\<open>data.sha\<close>; \<^verbatim>\<open>"content" in data\<close> and \<^verbatim>\<open>data.content\<close>.\<close>

fun data_sha :: "content_data \<Rightarrow> string option" where
  "data_sha (Listing _) = None"
| "data_sha (Single sha _) = sha"

fun data_content :: "content_data \<Rightarrow> string option" where
  "data_content (Listing _) = None"
| "data_content (Single _ content) = content"

definition has_sha :: "content_data \<Rightarrow> bool" where
  "has_sha d = (data_sha d \<noteq> None)"

definition has_content :: "content_data \<Rightarrow> bool" where
  "has_content d = (data_content d \<noteq> None)"

record put_args =
  p_owner :: string
  p_repo :: string
  p_path :: string
  p_message :: string
  p_content :: base64
  p_sha :: "string option"
  p_branch :: "string option"

text \<open>\<^verbatim>\<open>result.data.content?.path\<close> of the answer to a submission.\<close>

record put_result =
  content_path :: "string option"

record store =
  getContent :: "get_args \<Rightarrow> store_error + content_data"
  createOrUpdateFileContents :: "put_args \<Rightarrow> store_error + put_result"

datatype store_call =
    GetContent get_args
  | CreateOrUpdate put_args

subsection \<open>POST /github/get-file\<close>

record get_file_request =
  gf_owner :: "string option"
  gf_repo :: "string option"
  gf_path :: "string option"
  gf_ref :: "string option"

text \<open>Lines 43 to 56.\<close>

definition github_get_file :: "store \<Rightarrow> get_file_request \<Rightarrow> store_call list \<times> reply" where
  "github_get_file st req =
     (if falsy (gf_owner req) \<or> falsy (gf_repo req) \<or> falsy (gf_path req)
      then ([], Reply 400 (ErrorBody ''owner, repo, and path are required''))
      else
        (let args = \<lparr>g_owner = the (gf_owner req), g_repo = the (gf_repo req),
                     g_path = the (gf_path req), g_ref = gf_ref req\<rparr> in
         case getContent st args of
           Inl e \<Rightarrow> ([GetContent args], Reply 500 (ErrorBody (err_message e)))
         | Inr d \<Rightarrow>
             (if \<not> has_content d then ([GetContent args], Reply 400 (ErrorBody ''Not a file''))
              else ([GetContent args], Reply 200 (TextBody (FromBase64 (the (data_content d))))))))"

subsection \<open>POST /github/put-file\<close>

record put_file_request =
  pf_owner :: "string option"
  pf_repo :: "string option"
  pf_path :: "string option"
  pf_content :: "string option"
  pf_message :: "string option"
  pf_branch :: "string option"

text \<open>Lines 67 to 74: the probe. \<^verbatim>\<open>sha\<close> starts \<^verbatim>\<open>undefined\<close>; the two \<^verbatim>\<open>if\<close>s run when
  \<^verbatim>\<open>getContent\<close> returns; the empty \<^verbatim>\<open>catch\<close> takes every exception.\<close>

definition probe_sha :: "store_error + content_data \<Rightarrow> string option" where
  "probe_sha r =
     (case r of
        Inl e \<Rightarrow> None
      | Inr d \<Rightarrow>
          (let sha0 = None;
               sha1 = (if has_sha d then data_sha d else sha0);
               sha2 = (if has_sha d \<and> is_array d then None else sha1)
           in sha2))"

text \<open>Lines 59 to 83.\<close>

definition github_put_file :: "store \<Rightarrow> put_file_request \<Rightarrow> store_call list \<times> reply" where
  "github_put_file st req =
     (if falsy (pf_owner req) \<or> falsy (pf_repo req) \<or> falsy (pf_path req)
         \<or> falsy (pf_content req) \<or> falsy (pf_message req)
      then ([], Reply 400 (ErrorBody ''owner, repo, path, content, message are required''))
      else
        (let owner = the (pf_owner req); repo = the (pf_repo req); path = the (pf_path req);
             content = the (pf_content req); message = the (pf_message req);
             branch = pf_branch req;
             gargs = \<lparr>g_owner = owner, g_repo = repo, g_path = path, g_ref = branch\<rparr>;
             sha = probe_sha (getContent st gargs);
             b64 = Base64 content;
             pargs = \<lparr>p_owner = owner, p_repo = repo, p_path = path, p_message = message,
                      p_content = b64, p_sha = sha, p_branch = branch\<rparr>
         in case createOrUpdateFileContents st pargs of
              Inl e \<Rightarrow> ([GetContent gargs, CreateOrUpdate pargs], Reply 500 (ErrorBody (err_message e)))
            | Inr result \<Rightarrow>
                ([GetContent gargs, CreateOrUpdate pargs],
                 Reply 200 (PutOk path (if falsy branch then content_path result else branch)))))"

text \<open>The submissions in a trace of store calls.\<close>

fun submissions :: "store_call list \<Rightarrow> put_args list" where
  "submissions [] = []"
| "submissions (CreateOrUpdate a # cs) = a # submissions cs"
| "submissions (_ # cs) = submissions cs"

text \<open>A store that gives one answer to every probe and one answer to every submission.\<close>

definition store_of :: "store_error + content_data \<Rightarrow> store_error + put_result \<Rightarrow> store" where
  "store_of g p = \<lparr>getContent = (\<lambda>a. g), createOrUpdateFileContents = (\<lambda>a. p)\<rparr>"

text \<open>The branch a submission is committed on, in the words of the specification: the
  requested branch when given, otherwise the default branch of the store.\<close>

definition spec_branch_used :: "string \<Rightarrow> string option \<Rightarrow> string" where
  "spec_branch_used default_branch requested =
     (case requested of Some b \<Rightarrow> b | None \<Rightarrow> default_branch)"

text \<open>An archive with a directory entry and two files.\<close>

definition example_entries :: "zip_entry list" where
  "example_entries =
     [\<lparr>entryName = ''a/'', isDirectory = True, getData = Inr []\<rparr>,
      \<lparr>entryName = ''a/b.txt'', isDirectory = False, getData = Inr ''one''\<rparr>,
      \<lparr>entryName = ''a/c/d.txt'', isDirectory = False, getData = Inr ''two''\<rparr>]"

definition example_parse :: zip_parser where
  "example_parse buf = Inr example_entries"

section \<open>Properties of the deployment handlers\<close>

subsection \<open>Remote paths\<close>

lemma double_slash_append:
  "double_slash (xs @ ys) \<longleftrightarrow>
     double_slash xs \<or> double_slash ys
     \<or> (xs \<noteq> [] \<and> ys \<noteq> [] \<and> last xs = CHR ''/'' \<and> hd ys = CHR ''/'')"
proof (induction xs)
  case Nil
  then show ?case by simp
next
  case (Cons a xs)
  show ?case
  proof (cases xs)
    case Nil
    then show ?thesis by (cases ys) auto
  next
    case (Cons b cs)
    then show ?thesis using Cons.IH by auto
  qed
qed

lemma strip_leading_slashes_split:
  "\<exists>k. s = replicate k CHR ''/'' @ strip_leading_slashes s"
proof (induction s)
  case Nil
  then show ?case by (simp add: strip_leading_slashes_def)
next
  case (Cons a s)
  show ?case
  proof (cases "a = CHR ''/''")
    case True
    from Cons obtain k where "s = replicate k CHR ''/'' @ strip_leading_slashes s" by blast
    then have "a # s = replicate (Suc k) CHR ''/'' @ strip_leading_slashes (a # s)"
      using True by (simp add: strip_leading_slashes_def)
    then show ?thesis by blast
  next
    case False
    then have "a # s = replicate 0 CHR ''/'' @ strip_leading_slashes (a # s)"
      by (simp add: strip_leading_slashes_def)
    then show ?thesis by blast
  qed
qed

lemma strip_leading_slashes_start:
  "strip_leading_slashes s = [] \<or> hd (strip_leading_slashes s) \<noteq> CHR ''/''"
  unfolding strip_leading_slashes_def
  using hd_dropWhile[of "\<lambda>c. c = CHR ''/''" s] by blast

lemma double_slash_strip:
  assumes "\<not> double_slash s"
  shows "\<not> double_slash (strip_leading_slashes s)"
proof
  assume d: "double_slash (strip_leading_slashes s)"
  obtain k where k: "s = replicate k CHR ''/'' @ strip_leading_slashes s"
    using strip_leading_slashes_split by blast
  from d have "double_slash (replicate k CHR ''/'' @ strip_leading_slashes s)"
    by (simp add: double_slash_append)
  with k assms show False by simp
qed

text \<open>
  Claim C8, as amended. The remote path of an entry is the base path, one slash, and the
  entry name without the slashes it starts with: the name is some number of slashes
  followed by the part that is kept, and the part that is kept does not start with a
  slash. The base path is taken as it is. So the remote path has no two slashes in a row
  when the base path has none and does not end with a slash, and the entry name has none.
  Entry \<^verbatim>\<open>/x/y.txt\<close> under base \<^verbatim>\<open>/htdocs\<close> gives \<^verbatim>\<open>/htdocs/x/y.txt\<close>.
\<close>

theorem remote_path_joins:
  "(\<exists>k. name = replicate k CHR ''/'' @ strip_leading_slashes name)
   \<and> (strip_leading_slashes name = [] \<or> hd (strip_leading_slashes name) \<noteq> CHR ''/'')
   \<and> remote_path base name = base @ ''/'' @ strip_leading_slashes name
   \<and> (\<not> double_slash base \<and> \<not> double_slash name \<and> (base = [] \<or> last base \<noteq> CHR ''/'')
        \<longrightarrow> \<not> double_slash (remote_path base name))
   \<and> remote_path ''/htdocs'' ''/x/y.txt'' = ''/htdocs/x/y.txt''"
proof -
  have 1: "\<exists>k. name = replicate k CHR ''/'' @ strip_leading_slashes name"
    by (rule strip_leading_slashes_split)
  have 2: "strip_leading_slashes name = [] \<or> hd (strip_leading_slashes name) \<noteq> CHR ''/''"
    by (rule strip_leading_slashes_start)
  have 3: "remote_path base name = base @ ''/'' @ strip_leading_slashes name"
    by (simp add: remote_path_def)
  have 4: "\<not> double_slash (remote_path base name)"
    if "\<not> double_slash base" "\<not> double_slash name" "base = [] \<or> last base \<noteq> CHR ''/''"
  proof -
    have "\<not> double_slash (strip_leading_slashes name)"
      using that(2) by (rule double_slash_strip)
    then have "\<not> double_slash (''/'' @ strip_leading_slashes name)"
      using 2 double_slash_append[of "''/''" "strip_leading_slashes name"] by auto
    then show ?thesis
      using that(1,3) double_slash_append[of base "''/'' @ strip_leading_slashes name"]
      unfolding 3 by auto
  qed
  have 5: "remote_path ''/htdocs'' ''/x/y.txt'' = ''/htdocs/x/y.txt''"
    by (simp add: remote_path_def strip_leading_slashes_def)
  from 1 2 3 4 5 show ?thesis by blast
qed

theorem remote_path_joins_witness:
  "\<not> double_slash ''/www'' \<and> \<not> double_slash ''/img/a.png''
   \<and> last ''/www'' \<noteq> CHR ''/''
   \<and> remote_path ''/www'' ''/img/a.png'' = ''/www/img/a.png''
   \<and> \<not> double_slash (remote_path ''/www'' ''/img/a.png'')"
  using remote_path_joins[of "''/img/a.png''" "''/www''"]
  by (simp add: strip_leading_slashes_def)

text \<open>Claim C8 as stated fails: a base path that ends with a slash gives two slashes in
  a row at the join.\<close>

theorem remote_path_double_slash_counterexample:
  "remote_path ''/htdocs/'' ''x/y.txt'' = ''/htdocs//x/y.txt''
   \<and> double_slash (remote_path ''/htdocs/'' ''x/y.txt'')"
  by (simp add: remote_path_def strip_leading_slashes_def)

subsection \<open>The calls of a request\<close>

lemma uploadBuffer_extends:
  "\<exists>cs. fst (uploadBuffer srv p d tr) = tr @ cs \<and> Close \<notin> set cs"
  by (auto simp: uploadBuffer_def ftp_do_def Let_def split: option.splits)

lemma upload_entries_extends:
  "\<exists>cs. fst (upload_entries srv b es tr) = tr @ cs \<and> Close \<notin> set cs"
proof (induction es arbitrary: tr)
  case Nil
  then show ?case by simp
next
  case (Cons e es)
  show ?case
  proof (cases "isDirectory e")
    case True
    then show ?thesis using Cons.IH[of tr] by simp
  next
    case False
    show ?thesis
    proof (cases "getData e")
      case (Inl m)
      then show ?thesis using False by simp
    next
      case (Inr d)
      obtain tr1 r where ub: "uploadBuffer srv (remote_path b (entryName e)) d tr = (tr1, r)"
        by (cases "uploadBuffer srv (remote_path b (entryName e)) d tr")
      obtain cs1 where cs1: "tr1 = tr @ cs1" "Close \<notin> set cs1"
        using uploadBuffer_extends[of srv "remote_path b (entryName e)" d tr] ub by auto
      show ?thesis
      proof (cases r)
        case (Inl m)
        then show ?thesis using False Inr ub cs1 by simp
      next
        case r: (Inr u)
        obtain cs2 where cs2: "fst (upload_entries srv b es tr1) = tr1 @ cs2" "Close \<notin> set cs2"
          using Cons.IH[of tr1] by blast
        have "fst (upload_entries srv b (e # es) tr) = tr @ (cs1 @ cs2)"
          using False Inr ub r cs1 cs2 by simp
        moreover have "Close \<notin> set (cs1 @ cs2)" using cs1 cs2 by simp
        ultimately show ?thesis by blast
      qed
    qed
  qed
qed

lemma zip_try_no_close: "Close \<notin> set (fst (deploy_upload_zip_try srv parse req))"
proof (cases "zip_file req")
  case None
  then show ?thesis by (simp add: deploy_upload_zip_try_def)
next
  case (Some buf)
  define base where "base = (case zip_basePath req of None \<Rightarrow> ''/htdocs'' | Some b \<Rightarrow> b)"
  show ?thesis
  proof (cases "srv [] Access")
    case (Some m)
    then show ?thesis using \<open>zip_file req = Some buf\<close>
      by (simp add: deploy_upload_zip_try_def ftp_do_def)
  next
    case None
    show ?thesis
    proof (cases "parse buf")
      case (Inl m)
      then show ?thesis using None \<open>zip_file req = Some buf\<close>
        by (simp add: deploy_upload_zip_try_def ftp_do_def)
    next
      case (Inr es)
      obtain cs where cs: "fst (upload_entries srv base es [Access]) = [Access] @ cs" "Close \<notin> set cs"
        using upload_entries_extends[of srv base es "[Access]"] by blast
      then show ?thesis using None Inr \<open>zip_file req = Some buf\<close>
        by (auto simp: deploy_upload_zip_try_def ftp_do_def base_def Let_def
                 split: prod.splits sum.splits)
    qed
  qed
qed

lemma ftp_try_no_close: "Close \<notin> set (fst (deploy_upload_ftp_try srv req))"
proof (cases "ftp_file req")
  case None
  then show ?thesis by (simp add: deploy_upload_ftp_try_def)
next
  case (Some buf)
  define rp where "rp = (case ftp_remotePath req of None \<Rightarrow> ''/htdocs/index.html'' | Some p \<Rightarrow> p)"
  obtain cs where cs: "fst (uploadBuffer srv rp buf [Access]) = [Access] @ cs" "Close \<notin> set cs"
    using uploadBuffer_extends[of srv rp buf "[Access]"] by blast
  then show ?thesis using Some
    by (auto simp: deploy_upload_ftp_try_def ftp_do_def rp_def Let_def
             split: prod.splits sum.splits option.splits)
qed

lemma closes_snoc: "Close \<notin> set tr \<Longrightarrow> closes (tr @ [Close]) = 1"
  by (induction tr) (auto simp: closes_def)

text \<open>
  Claim C7. Whatever the server, the parser and the request are, the trace of a bulk
  deployment request has exactly one \<open>Close\<close>, and it is the last call: this covers the
  request without a payload, the connection that fails, the archive that does not parse,
  the upload that fails and the normal end, for the archive handler and the single-file
  handler.
\<close>

theorem session_closed_once:
  "closes (fst (deploy_upload_zip srv parse zreq)) = 1
   \<and> last (fst (deploy_upload_zip srv parse zreq)) = Close
   \<and> closes (fst (deploy_upload_ftp srv freq)) = 1
   \<and> last (fst (deploy_upload_ftp srv freq)) = Close"
proof -
  have z: "fst (deploy_upload_zip srv parse zreq) = fst (deploy_upload_zip_try srv parse zreq) @ [Close]"
    by (simp add: deploy_upload_zip_def split: prod.splits)
  have f: "fst (deploy_upload_ftp srv freq) = fst (deploy_upload_ftp_try srv freq) @ [Close]"
    by (simp add: deploy_upload_ftp_def split: prod.splits)
  show ?thesis
    unfolding z f using closes_snoc[OF zip_try_no_close] closes_snoc[OF ftp_try_no_close] by simp
qed

text \<open>
  Claim C1 fails on the code. The reply counts \<^verbatim>\<open>entries.length\<close>, every entry of the
  archive. An archive whose only entry is a directory makes no upload call, and the reply
  is \<^verbatim>\<open>uploaded: 1\<close>, while the number of entries that are not directories is 0.
\<close>

theorem upload_zip_counts_directories:
  "deploy_upload_zip accepting
     (\<lambda>buf. Inr [\<lparr>entryName = ''assets/'', isDirectory = True, getData = Inr []\<rparr>])
     \<lparr>zip_file = Some ''PK'', zip_basePath = None\<rparr>
   = ([Access, Close], Reply 200 (ZipOk 1))
   \<and> length (filter (\<lambda>e. \<not> isDirectory e)
        [\<lparr>entryName = ''assets/'', isDirectory = True, getData = Inr []\<rparr>]) = 0"
  by (simp add: deploy_upload_zip_def deploy_upload_zip_try_def ftp_do_def accepting_def)

text \<open>
  Claim C2, as amended. The handler connects before it parses. For a payload that does
  not parse, the calls of the request are the connection and the close, nothing else:
  no directory is made and nothing is uploaded. The reply has status 500; it carries the
  message of the parser when the connection succeeded, and the message of the
  connection failure otherwise.
\<close>

theorem upload_zip_parse_failure:
  assumes "zip_file req = Some buf" and "parse buf = Inl m"
  shows "deploy_upload_zip srv parse req =
           ([Access, Close],
            Reply 500 (ErrorBody (case srv [] Access of None \<Rightarrow> m | Some m' \<Rightarrow> m')))"
  using assms
  by (simp add: deploy_upload_zip_def deploy_upload_zip_try_def ftp_do_def split: option.splits)

theorem upload_zip_parse_failure_witness:
  "zip_file \<lparr>zip_file = Some ''not a zip'', zip_basePath = Some ''/www''\<rparr> = Some ''not a zip''
   \<and> (\<lambda>buf. Inl ''bad zip'' :: string + zip_entry list) ''not a zip'' = Inl ''bad zip''
   \<and> deploy_upload_zip accepting (\<lambda>buf. Inl ''bad zip'')
       \<lparr>zip_file = Some ''not a zip'', zip_basePath = Some ''/www''\<rparr>
     = ([Access, Close], Reply 500 (ErrorBody ''bad zip''))"
  using upload_zip_parse_failure[of "\<lparr>zip_file = Some ''not a zip'', zip_basePath = Some ''/www''\<rparr>"
           "''not a zip''" "\<lambda>buf. Inl ''bad zip''" "''bad zip''" accepting]
  by (simp add: accepting_def)

text \<open>Claim C2 as stated fails: with a payload that does not parse, the connection to
  the transfer server is made, and the status of the reply is 500, not 400.\<close>

theorem upload_zip_parse_failure_counterexample:
  "deploy_upload_zip accepting
     (\<lambda>buf. Inl ''Invalid or unsupported zip format. No END header found'')
     \<lparr>zip_file = Some ''not a zip'', zip_basePath = None\<rparr>
   = ([Access, Close],
      Reply 500 (ErrorBody ''Invalid or unsupported zip format. No END header found''))"
  by (simp add: deploy_upload_zip_def deploy_upload_zip_try_def ftp_do_def accepting_def)

subsection \<open>The directories of a remote path\<close>













subsection \<open>The upload loop\<close>

lemma append_eq_mid:
  "xs @ ys = pre @ x # post \<longleftrightarrow>
     (\<exists>post1. xs = pre @ x # post1 \<and> post = post1 @ ys)
     \<or> (\<exists>pre2. pre = xs @ pre2 \<and> ys = pre2 @ x # post)"
  by (auto simp: append_eq_append_conv2 append_eq_Cons_conv Cons_eq_append_conv)

lemma uploads_append: "uploads (xs @ ys) = uploads xs @ uploads ys"
  by (induction xs rule: uploads.induct) auto

lemma dirs_first_append:
  assumes "dirs_first cs1" and "dirs_first cs2"
  shows "dirs_first (cs1 @ cs2)"
  unfolding dirs_first_def
proof (intro allI impI)
  fix pre d p post
  assume a: "cs1 @ cs2 = pre @ UploadFrom d p # post \<and> path_dirs p \<noteq> []"
  then consider post1 where "cs1 = pre @ UploadFrom d p # post1"
    | pre2 where "pre = cs1 @ pre2" "cs2 = pre2 @ UploadFrom d p # post"
    by (auto simp: append_eq_mid)
  then show "\<exists>pre'. pre = pre' @ [ensure_call p]"
  proof cases
    case 1
    then show ?thesis using assms(1) a unfolding dirs_first_def by blast
  next
    case 2
    then obtain pre' where "pre2 = pre' @ [ensure_call p]"
      using assms(2) a unfolding dirs_first_def by blast
    then have "pre = (cs1 @ pre') @ [ensure_call p]" using 2 by simp
    then show ?thesis by blast
  qed
qed

lemma fail_last_append:
  assumes "fail_last srv tr cs1 (Inr ())" and "fail_last srv (tr @ cs1) cs2 r"
  shows "fail_last srv tr (cs1 @ cs2) r"
  unfolding fail_last_def
proof (intro allI impI)
  fix pre c post m
  assume a: "cs1 @ cs2 = pre @ c # post \<and> srv (tr @ pre) c = Some m"
  then consider post1 where "cs1 = pre @ c # post1"
    | pre2 where "pre = cs1 @ pre2" "cs2 = pre2 @ c # post"
    by (auto simp: append_eq_mid)
  then show "post = [] \<and> r = Inl m"
  proof cases
    case 1
    then have "Inr () = (Inl m :: string + unit)"
      using assms(1) a unfolding fail_last_def by blast
    then show ?thesis by simp
  next
    case 2
    then show ?thesis using assms(2) a unfolding fail_last_def by auto
  qed
qed

lemma uploadBuffer_run:
  "\<exists>cs r. uploadBuffer srv p d tr = (tr @ cs, r) \<and> Close \<notin> set cs \<and> Access \<notin> set cs
     \<and> ((uploads cs = [] \<and> r \<noteq> Inr ()) \<or> uploads cs = [(p, d)])
     \<and> dirs_first cs \<and> fail_last srv tr cs r"
proof (cases "path_dirs p = []")
  case True
  have "uploadBuffer srv p d tr =
          (tr @ [UploadFrom d p], case srv tr (UploadFrom d p) of Some m \<Rightarrow> Inl m | None \<Rightarrow> Inr ())"
    using True by (simp add: uploadBuffer_def ftp_do_def Let_def)
  moreover have "dirs_first [UploadFrom d p]"
    using True by (auto simp: dirs_first_def Cons_eq_append_conv)
  moreover have "fail_last srv tr [UploadFrom d p]
      (case srv tr (UploadFrom d p) of Some m \<Rightarrow> Inl m | None \<Rightarrow> Inr ())"
    by (auto simp: fail_last_def Cons_eq_append_conv)
  ultimately show ?thesis by auto
next
  case False
  show ?thesis
  proof (cases "srv tr (ensure_call p)")
    case (Some m)
    have "uploadBuffer srv p d tr = (tr @ [ensure_call p], Inl m)"
      using False Some by (simp add: uploadBuffer_def ftp_do_def ensure_call_def Let_def)
    moreover have "dirs_first [ensure_call p]"
      by (auto simp: dirs_first_def Cons_eq_append_conv ensure_call_def)
    moreover have "fail_last srv tr [ensure_call p] (Inl m)"
      using Some by (auto simp: fail_last_def Cons_eq_append_conv)
    ultimately show ?thesis by (auto simp: ensure_call_def)
  next
    case None
    have "uploadBuffer srv p d tr =
          (tr @ [ensure_call p, UploadFrom d p],
           case srv (tr @ [ensure_call p]) (UploadFrom d p) of Some m \<Rightarrow> Inl m | None \<Rightarrow> Inr ())"
      using False None by (simp add: uploadBuffer_def ftp_do_def ensure_call_def Let_def)
    moreover have "dirs_first [ensure_call p, UploadFrom d p]"
      by (auto simp: dirs_first_def Cons_eq_append_conv ensure_call_def)
    moreover have "fail_last srv tr [ensure_call p, UploadFrom d p]
      (case srv (tr @ [ensure_call p]) (UploadFrom d p) of Some m \<Rightarrow> Inl m | None \<Rightarrow> Inr ())"
      using None by (auto simp: fail_last_def Cons_eq_append_conv)
    ultimately show ?thesis by (auto simp: ensure_call_def)
  qed
qed

lemma upload_entries_run:
  "\<exists>cs r. upload_entries srv b es tr = (tr @ cs, r) \<and> Close \<notin> set cs \<and> Access \<notin> set cs
     \<and> prefix (upload_calls cs) (expected_uploads b es)
     \<and> (r = Inr () \<longrightarrow> upload_calls cs = expected_uploads b es)
     \<and> dirs_first cs \<and> fail_last srv tr cs r"
proof (induction es arbitrary: tr)
  case Nil
  then show ?case
    by (simp add: upload_calls_def expected_uploads_def dirs_first_def fail_last_def)
next
  case (Cons e es)
  show ?case
  proof (cases "isDirectory e")
    case True
    then show ?thesis using Cons.IH[of tr] by (simp add: expected_uploads_def)
  next
    case False
    show ?thesis
    proof (cases "getData e")
      case (Inl m)
      then have "upload_entries srv b (e # es) tr = (tr @ [], Inl m)" using False by simp
      then show ?thesis
        by (auto simp: upload_calls_def dirs_first_def fail_last_def)
    next
      case (Inr d)
      define p where "p = remote_path b (entryName e)"
      have exp: "expected_uploads b (e # es) = (p, Inr d) # expected_uploads b es"
        using False Inr by (simp add: expected_uploads_def p_def)
      obtain cs1 r1 where ub: "uploadBuffer srv p d tr = (tr @ cs1, r1)"
        and n1: "Close \<notin> set cs1" "Access \<notin> set cs1"
        and u1: "(uploads cs1 = [] \<and> r1 \<noteq> Inr ()) \<or> uploads cs1 = [(p, d)]"
        and d1: "dirs_first cs1" and f1: "fail_last srv tr cs1 r1"
        using uploadBuffer_run[of srv p d tr] by blast
      show ?thesis
      proof (cases r1)
        case (Inl m)
        then have "upload_entries srv b (e # es) tr = (tr @ cs1, Inl m)"
          using False Inr ub by (simp add: p_def)
        moreover have "prefix (upload_calls cs1) (expected_uploads b (e # es))"
          using u1 unfolding exp by (auto simp: upload_calls_def)
        ultimately show ?thesis using n1 d1 f1 Inl by auto
      next
        case r: (Inr u)
        then have r1: "r1 = Inr ()" by simp
        obtain cs2 r2 where ue: "upload_entries srv b es (tr @ cs1) = ((tr @ cs1) @ cs2, r2)"
          and n2: "Close \<notin> set cs2" "Access \<notin> set cs2"
          and p2: "prefix (upload_calls cs2) (expected_uploads b es)"
          and e2: "r2 = Inr () \<longrightarrow> upload_calls cs2 = expected_uploads b es"
          and d2: "dirs_first cs2" and f2: "fail_last srv (tr @ cs1) cs2 r2"
          using Cons.IH[of "tr @ cs1"] by blast
        have run: "upload_entries srv b (e # es) tr = (tr @ (cs1 @ cs2), r2)"
          using False Inr ub r ue by (simp add: p_def)
        have du: "upload_calls (cs1 @ cs2) = (p, Inr d) # upload_calls cs2"
          using u1 r1 by (simp add: upload_calls_def uploads_append)
        have "prefix (upload_calls (cs1 @ cs2)) (expected_uploads b (e # es))"
          unfolding du exp using p2 by simp
        moreover have "r2 = Inr () \<longrightarrow> upload_calls (cs1 @ cs2) = expected_uploads b (e # es)"
          unfolding du exp using e2 by simp
        moreover have "dirs_first (cs1 @ cs2)" using d1 d2 by (rule dirs_first_append)
        moreover have "fail_last srv tr (cs1 @ cs2) r2"
          using f1 f2 unfolding r1 by (rule fail_last_append)
        ultimately show ?thesis using run n1 n2 by auto
      qed
    qed
  qed
qed

lemma deploy_upload_zip_run:
  assumes "zip_file req = Some buf" and "parse buf = Inr es"
  shows "(\<exists>m. srv [] Access = Some m
            \<and> deploy_upload_zip srv parse req = ([Access, Close], Reply 500 (ErrorBody m)))
       \<or> (\<exists>cs r. srv [] Access = None
            \<and> deploy_upload_zip srv parse req =
                (Access # cs @ [Close],
                 case r of Inl m \<Rightarrow> Reply 500 (ErrorBody m) | Inr u \<Rightarrow> Reply 200 (ZipOk (length es)))
            \<and> Close \<notin> set cs \<and> Access \<notin> set cs
            \<and> prefix (upload_calls cs)
                 (expected_uploads (case zip_basePath req of None \<Rightarrow> ''/htdocs'' | Some b \<Rightarrow> b) es)
            \<and> (r = Inr () \<longrightarrow> upload_calls cs =
                 expected_uploads (case zip_basePath req of None \<Rightarrow> ''/htdocs'' | Some b \<Rightarrow> b) es)
            \<and> dirs_first cs \<and> fail_last srv [Access] cs r)"
proof (cases "srv [] Access")
  case (Some m)
  then have "deploy_upload_zip srv parse req = ([Access, Close], Reply 500 (ErrorBody m))"
    using assms by (simp add: deploy_upload_zip_def deploy_upload_zip_try_def ftp_do_def)
  then show ?thesis using Some by simp
next
  case None
  define base where "base = (case zip_basePath req of None \<Rightarrow> ''/htdocs'' | Some b \<Rightarrow> b)"
  obtain cs r where run: "upload_entries srv base es [Access] = ([Access] @ cs, r)"
    and props: "Close \<notin> set cs" "Access \<notin> set cs"
      "prefix (upload_calls cs) (expected_uploads base es)"
      "r = Inr () \<longrightarrow> upload_calls cs = expected_uploads base es"
      "dirs_first cs" "fail_last srv [Access] cs r"
    using upload_entries_run[of srv base es "[Access]"] by blast
  have "deploy_upload_zip srv parse req =
          (Access # cs @ [Close],
           case r of Inl m \<Rightarrow> Reply 500 (ErrorBody m) | Inr u \<Rightarrow> Reply 200 (ZipOk (length es)))"
    using assms None run
    by (simp add: deploy_upload_zip_def deploy_upload_zip_try_def ftp_do_def base_def[symmetric]
             split: sum.splits)
  then show ?thesis using None props unfolding base_def by blast
qed








subsection \<open>The default paths\<close>

text \<open>
  Where the uploads of a request without \<^verbatim>\<open>remotePath\<close> or \<^verbatim>\<open>basePath\<close> are directed,
  whatever the client and the server do. A request to the single-file handler without
  \<^verbatim>\<open>remotePath\<close> behaves as the request with \<^verbatim>\<open>remotePath\<close> \<^verbatim>\<open>/htdocs/index.html\<close>, and no
  upload call of it names another path or carries other bytes. A request to the archive
  handler without \<^verbatim>\<open>basePath\<close> behaves as the request with \<^verbatim>\<open>basePath\<close> \<^verbatim>\<open>/htdocs\<close>, and
  every upload call of it names \<^verbatim>\<open>/htdocs/\<close> followed by the name of an entry that is not
  a directory, without the slashes the name starts with.
\<close>

lemma default_paths_used:
  "deploy_upload_ftp srv \<lparr>ftp_file = f, ftp_remotePath = None\<rparr>
     = deploy_upload_ftp srv \<lparr>ftp_file = f, ftp_remotePath = Some ''/htdocs/index.html''\<rparr>
   \<and> (\<forall>p x. (p, x) \<in> set (uploads (fst (deploy_upload_ftp srv \<lparr>ftp_file = f, ftp_remotePath = None\<rparr>)))
         \<longrightarrow> p = ''/htdocs/index.html'' \<and> f = Some x)
   \<and> deploy_upload_zip srv parse \<lparr>zip_file = z, zip_basePath = None\<rparr>
     = deploy_upload_zip srv parse \<lparr>zip_file = z, zip_basePath = Some ''/htdocs''\<rparr>
   \<and> (z = Some buf \<and> parse buf = Inr es \<longrightarrow>
        (\<forall>p x. (p, x) \<in> set (uploads (fst (deploy_upload_zip srv parse \<lparr>zip_file = z, zip_basePath = None\<rparr>)))
           \<longrightarrow> (\<exists>e \<in> set es. \<not> isDirectory e \<and> getData e = Inr x
                  \<and> p = ''/htdocs/'' @ strip_leading_slashes (entryName e))))"
proof -
  have 1: "deploy_upload_ftp srv \<lparr>ftp_file = f, ftp_remotePath = None\<rparr>
     = deploy_upload_ftp srv \<lparr>ftp_file = f, ftp_remotePath = Some ''/htdocs/index.html''\<rparr>"
    by (cases f) (simp_all add: deploy_upload_ftp_def deploy_upload_ftp_try_def Let_def)
  have 3: "p = ''/htdocs/index.html'' \<and> f = Some x"
    if h: "(p, x) \<in> set (uploads (fst (deploy_upload_ftp srv \<lparr>ftp_file = f, ftp_remotePath = None\<rparr>)))"
    for p x
  proof (cases f)
    case None
    then show ?thesis using h by (simp add: deploy_upload_ftp_def deploy_upload_ftp_try_def Let_def)
  next
    case (Some b)
    show ?thesis
    proof (cases "srv [] Access")
      case (Some m)
      then show ?thesis using h \<open>f = Some b\<close>
        by (simp add: deploy_upload_ftp_def deploy_upload_ftp_try_def ftp_do_def Let_def)
    next
      case None
      obtain cs r where ub: "uploadBuffer srv ''/htdocs/index.html'' b [Access] = ([Access] @ cs, r)"
        and u: "(uploads cs = [] \<and> r \<noteq> Inr ()) \<or> uploads cs = [(''/htdocs/index.html'', b)]"
        using uploadBuffer_run[of srv "''/htdocs/index.html''" b "[Access]"] by blast
      have "fst (deploy_upload_ftp srv \<lparr>ftp_file = f, ftp_remotePath = None\<rparr>) = [Access] @ cs @ [Close]"
        using None \<open>f = Some b\<close> ub
        by (simp add: deploy_upload_ftp_def deploy_upload_ftp_try_def ftp_do_def Let_def split: sum.splits)
      then have "(p, x) \<in> set (uploads cs)" using h by (simp add: uploads_append)
      then show ?thesis using u \<open>f = Some b\<close> by auto
    qed
  qed
  have 4: "deploy_upload_zip srv parse \<lparr>zip_file = z, zip_basePath = None\<rparr>
     = deploy_upload_zip srv parse \<lparr>zip_file = z, zip_basePath = Some ''/htdocs''\<rparr>"
    by (cases z) (simp_all add: deploy_upload_zip_def deploy_upload_zip_try_def Let_def)
  have 5: "\<exists>e \<in> set es. \<not> isDirectory e \<and> getData e = Inr x
                  \<and> p = ''/htdocs/'' @ strip_leading_slashes (entryName e)"
    if z: "z = Some buf" "parse buf = Inr es"
      and h: "(p, x) \<in> set (uploads (fst (deploy_upload_zip srv parse \<lparr>zip_file = z, zip_basePath = None\<rparr>)))"
    for p x
  proof -
    let ?req = "\<lparr>zip_file = z, zip_basePath = None\<rparr>"
    have "prefix (upload_calls (fst (deploy_upload_zip srv parse ?req))) (expected_uploads ''/htdocs'' es)"
      using deploy_upload_zip_run[of ?req buf parse es srv] z
      by (auto simp: upload_calls_def uploads_append)
    then have "set (upload_calls (fst (deploy_upload_zip srv parse ?req))) \<subseteq> set (expected_uploads ''/htdocs'' es)"
      by (rule set_mono_prefix)
    moreover have "(p, Inr x) \<in> set (upload_calls (fst (deploy_upload_zip srv parse ?req)))"
      using h by (force simp: upload_calls_def)
    ultimately have "(p, Inr x) \<in> set (expected_uploads ''/htdocs'' es)" by blast
    then show ?thesis by (auto simp: expected_uploads_def remote_path_def)
  qed
  from 1 3 4 5 show ?thesis by blast
qed

text \<open>
  Claim C10 fails on the code. Without \<^verbatim>\<open>remotePath\<close> the single-file handler directs
  its upload to \<^verbatim>\<open>/htdocs/index.html\<close>, and without \<^verbatim>\<open>basePath\<close> the archive handler
  computes its remote paths under \<^verbatim>\<open>/htdocs\<close>; but line 92 gives \<^verbatim>\<open>client.uploadFrom\<close> a
  \<^verbatim>\<open>Buffer\<close>, the call throws, and the reply is status 500: the payload is not put at
  the default path.
\<close>

theorem default_path_upload_throws:
  "deploy_upload_ftp basic_ftp \<lparr>ftp_file = Some ''hello'', ftp_remotePath = None\<rparr>
     = ([Access, EnsureDir ''/htdocs'', UploadFrom ''hello'' ''/htdocs/index.html'', Close],
        Reply 500 (ErrorBody ''source.once is not a function''))
   \<and> deploy_upload_zip basic_ftp example_parse \<lparr>zip_file = Some ''PK'', zip_basePath = None\<rparr>
     = ([Access, EnsureDir ''/htdocs/a'', UploadFrom ''one'' ''/htdocs/a/b.txt'', Close],
        Reply 500 (ErrorBody ''source.once is not a function''))"
  by (simp add: deploy_upload_ftp_def deploy_upload_ftp_try_def
        deploy_upload_zip_def deploy_upload_zip_try_def example_parse_def
        example_entries_def ftp_do_def uploadBuffer_def path_dirs_def path_parts_def
        remote_path_def strip_leading_slashes_def basic_ftp_def Let_def)

section \<open>Properties of the store handlers\<close>

text \<open>
  Claim C3 fails on the code. Without a branch in the request, the branch of the reply is
  \<^verbatim>\<open>result.data.content?.path\<close>, the path of the file: for a new file \<^verbatim>\<open>docs/a.md\<close> the
  reply says branch \<^verbatim>\<open>docs/a.md\<close>, while the commit is on the default branch of the
  store, \<^verbatim>\<open>main\<close> here.
\<close>

theorem put_file_reports_path_as_branch:
  "github_put_file
     (store_of (Inl \<lparr>err_status = 404, err_message = ''Not Found''\<rparr>)
               (Inr \<lparr>content_path = Some ''docs/a.md''\<rparr>))
     \<lparr>pf_owner = Some ''octo'', pf_repo = Some ''site'', pf_path = Some ''docs/a.md'',
      pf_content = Some ''hello'', pf_message = Some ''add a'', pf_branch = None\<rparr>
   = ([GetContent \<lparr>g_owner = ''octo'', g_repo = ''site'', g_path = ''docs/a.md'', g_ref = None\<rparr>,
       CreateOrUpdate \<lparr>p_owner = ''octo'', p_repo = ''site'', p_path = ''docs/a.md'',
         p_message = ''add a'', p_content = Base64 ''hello'', p_sha = None, p_branch = None\<rparr>],
      Reply 200 (PutOk ''docs/a.md'' (Some ''docs/a.md'')))
   \<and> spec_branch_used ''main'' None = ''main''"
  by (simp add: github_put_file_def store_of_def probe_sha_def spec_branch_used_def Let_def)

text \<open>
  Claim C4 fails on the code. The \<^verbatim>\<open>catch\<close> of the probe is empty and takes every
  exception: a probe that fails with status 503 is treated as a file that does not exist,
  the submission is made without a version token, and the reply is status 200.
\<close>

theorem put_file_swallows_probe_failure:
  "github_put_file
     (store_of (Inl \<lparr>err_status = 503, err_message = ''Service Unavailable''\<rparr>)
               (Inr \<lparr>content_path = Some ''docs/a.md''\<rparr>))
     \<lparr>pf_owner = Some ''octo'', pf_repo = Some ''site'', pf_path = Some ''docs/a.md'',
      pf_content = Some ''hello'', pf_message = Some ''add a'', pf_branch = Some ''main''\<rparr>
   = ([GetContent \<lparr>g_owner = ''octo'', g_repo = ''site'', g_path = ''docs/a.md'', g_ref = Some ''main''\<rparr>,
       CreateOrUpdate \<lparr>p_owner = ''octo'', p_repo = ''site'', p_path = ''docs/a.md'',
         p_message = ''add a'', p_content = Base64 ''hello'', p_sha = None, p_branch = Some ''main''\<rparr>],
      Reply 200 (PutOk ''docs/a.md'' (Some ''main'')))"
  by (simp add: github_put_file_def store_of_def probe_sha_def Let_def)

text \<open>
  Claim C5, as amended. For a request with owner, repo and path, the handler probes the
  store once. Every exception of the store gives status 500 with the message of the
  store, the missing path with its status 404 like any other. A directory, and an object
  without content, give status 400 with \<^verbatim>\<open>Not a file\<close>. An object with content gives
  status 200 and the decoded content.
\<close>

theorem get_file_errors:
  assumes "\<not> falsy (gf_owner req)" and "\<not> falsy (gf_repo req)" and "\<not> falsy (gf_path req)"
  shows "\<exists>args. args = \<lparr>g_owner = the (gf_owner req), g_repo = the (gf_repo req),
                        g_path = the (gf_path req), g_ref = gf_ref req\<rparr>
     \<and> (\<forall>e. getContent st args = Inl e \<longrightarrow>
           github_get_file st req = ([GetContent args], Reply 500 (ErrorBody (err_message e))))
     \<and> (\<forall>items. getContent st args = Inr (Listing items) \<longrightarrow>
           github_get_file st req = ([GetContent args], Reply 400 (ErrorBody ''Not a file'')))
     \<and> (\<forall>sha. getContent st args = Inr (Single sha None) \<longrightarrow>
           github_get_file st req = ([GetContent args], Reply 400 (ErrorBody ''Not a file'')))
     \<and> (\<forall>sha c. getContent st args = Inr (Single sha (Some c)) \<longrightarrow>
           github_get_file st req = ([GetContent args], Reply 200 (TextBody (FromBase64 c))))"
  using assms by (auto simp: github_get_file_def has_content_def Let_def)

theorem get_file_errors_witness:
  "\<not> falsy (Some ''octo'') \<and> \<not> falsy (Some ''site'') \<and> \<not> falsy (Some ''missing.md'')
   \<and> github_get_file (store_of (Inl \<lparr>err_status = 404, err_message = ''Not Found''\<rparr>) (Inl \<lparr>err_status = 500, err_message = ''unused''\<rparr>))
     \<lparr>gf_owner = Some ''octo'', gf_repo = Some ''site'', gf_path = Some ''missing.md'', gf_ref = None\<rparr>
   = ([GetContent \<lparr>g_owner = ''octo'', g_repo = ''site'', g_path = ''missing.md'', g_ref = None\<rparr>],
      Reply 500 (ErrorBody ''Not Found''))"
  using get_file_errors[of "\<lparr>gf_owner = Some ''octo'', gf_repo = Some ''site'', gf_path = Some ''missing.md'', gf_ref = None\<rparr>"
              "store_of (Inl \<lparr>err_status = 404, err_message = ''Not Found''\<rparr>) (Inl \<lparr>err_status = 500, err_message = ''unused''\<rparr>)"]
  by (simp add: store_of_def)

text \<open>Claim C5 as stated fails: the reply to a missing path (status 404 at the store)
  is the reply to another failure of the store with the same message, status 500
  both.\<close>

theorem get_file_not_found_counterexample:
  "snd (github_get_file
     (store_of (Inl \<lparr>err_status = 404, err_message = ''Not Found''\<rparr>) (Inr \<lparr>content_path = None\<rparr>))
     \<lparr>gf_owner = Some ''octo'', gf_repo = Some ''site'', gf_path = Some ''missing.md'', gf_ref = None\<rparr>)
   = Reply 500 (ErrorBody ''Not Found'')
   \<and> snd (github_get_file
     (store_of (Inl \<lparr>err_status = 502, err_message = ''Not Found''\<rparr>) (Inr \<lparr>content_path = None\<rparr>))
     \<lparr>gf_owner = Some ''octo'', gf_repo = Some ''site'', gf_path = Some ''missing.md'', gf_ref = None\<rparr>)
   = Reply 500 (ErrorBody ''Not Found'')"
  by (simp add: github_get_file_def store_of_def Let_def)

text \<open>
  Claim C6. A request that has all its required fields makes one probe and then one
  submission, for the same owner, repository, path and branch. The submission carries no
  version token when the probe throws and when the probe gives a directory listing; when
  the probe gives one object, the token of the submission is the \<^verbatim>\<open>sha\<close> of that object.
  So a token is sent exactly when the probe gave one object with a \<^verbatim>\<open>sha\<close>.
\<close>

theorem put_file_version_token:
  assumes "\<not> falsy (pf_owner req)" and "\<not> falsy (pf_repo req)" and "\<not> falsy (pf_path req)"
    and "\<not> falsy (pf_content req)" and "\<not> falsy (pf_message req)"
  shows "\<exists>gargs pargs.
       fst (github_put_file st req) = [GetContent gargs, CreateOrUpdate pargs]
     \<and> gargs = \<lparr>g_owner = the (pf_owner req), g_repo = the (pf_repo req),
                 g_path = the (pf_path req), g_ref = pf_branch req\<rparr>
     \<and> p_owner pargs = g_owner gargs \<and> p_repo pargs = g_repo gargs
     \<and> p_path pargs = g_path gargs \<and> p_branch pargs = g_ref gargs
     \<and> (\<forall>e. getContent st gargs = Inl e \<longrightarrow> p_sha pargs = None)
     \<and> (\<forall>items. getContent st gargs = Inr (Listing items) \<longrightarrow> p_sha pargs = None)
     \<and> (\<forall>sha c. getContent st gargs = Inr (Single sha c) \<longrightarrow> p_sha pargs = sha)
     \<and> (p_sha pargs \<noteq> None \<longleftrightarrow> (\<exists>s c. getContent st gargs = Inr (Single (Some s) c)))"
proof -
  define gargs where "gargs = \<lparr>g_owner = the (pf_owner req), g_repo = the (pf_repo req),
                 g_path = the (pf_path req), g_ref = pf_branch req\<rparr>"
  define pargs where "pargs = \<lparr>p_owner = the (pf_owner req), p_repo = the (pf_repo req),
      p_path = the (pf_path req), p_message = the (pf_message req),
      p_content = Base64 (the (pf_content req)), p_sha = probe_sha (getContent st gargs),
      p_branch = pf_branch req\<rparr>"
  have tr: "fst (github_put_file st req) = [GetContent gargs, CreateOrUpdate pargs]"
    using assms by (simp add: github_put_file_def gargs_def pargs_def Let_def split: sum.splits)
  have sha: "p_sha pargs = probe_sha (getContent st gargs)" by (simp add: pargs_def)
  have a: "\<forall>e. getContent st gargs = Inl e \<longrightarrow> p_sha pargs = None"
    by (simp add: sha probe_sha_def)
  have b: "\<forall>items. getContent st gargs = Inr (Listing items) \<longrightarrow> p_sha pargs = None"
    by (simp add: sha probe_sha_def has_sha_def)
  have c: "\<forall>sha c. getContent st gargs = Inr (Single sha c) \<longrightarrow> p_sha pargs = sha"
    by (auto simp: sha probe_sha_def has_sha_def)
  have d: "p_sha pargs \<noteq> None \<longleftrightarrow> (\<exists>s c. getContent st gargs = Inr (Single (Some s) c))"
  proof (cases "getContent st gargs")
    case (Inl e)
    then show ?thesis by (simp add: sha probe_sha_def)
  next
    case (Inr dat)
    then show ?thesis by (cases dat) (auto simp: sha probe_sha_def has_sha_def)
  qed
  have e: "p_owner pargs = g_owner gargs \<and> p_repo pargs = g_repo gargs
     \<and> p_path pargs = g_path gargs \<and> p_branch pargs = g_ref gargs"
    by (simp add: pargs_def gargs_def)
  from tr a b c d e show ?thesis unfolding gargs_def[symmetric] by blast
qed

theorem put_file_version_token_witness:
  "\<not> falsy (Some ''octo'') \<and> \<not> falsy (Some ''site'') \<and> \<not> falsy (Some ''docs/a.md'')
   \<and> \<not> falsy (Some ''hello'') \<and> \<not> falsy (Some ''update a'')
   \<and> map p_sha (submissions (fst (github_put_file
        (store_of (Inr (Single (Some ''3b18e5'') (Some ''b2xk''))) (Inr \<lparr>content_path = Some ''docs/a.md''\<rparr>))
        \<lparr>pf_owner = Some ''octo'', pf_repo = Some ''site'', pf_path = Some ''docs/a.md'',
         pf_content = Some ''hello'', pf_message = Some ''update a'', pf_branch = Some ''main''\<rparr>)))
     = [Some ''3b18e5'']"
proof -
  let ?st = "store_of (Inr (Single (Some ''3b18e5'') (Some ''b2xk''))) (Inr \<lparr>content_path = Some ''docs/a.md''\<rparr>)"
  let ?req = "\<lparr>pf_owner = Some ''octo'', pf_repo = Some ''site'', pf_path = Some ''docs/a.md'',
         pf_content = Some ''hello'', pf_message = Some ''update a'', pf_branch = Some ''main''\<rparr>"
  obtain gargs pargs where tr: "fst (github_put_file ?st ?req) = [GetContent gargs, CreateOrUpdate pargs]"
    and sha: "\<forall>sha c. getContent ?st gargs = Inr (Single sha c) \<longrightarrow> p_sha pargs = sha"
    using put_file_version_token[of ?req ?st] by auto
  have "getContent ?st gargs = Inr (Single (Some ''3b18e5'') (Some ''b2xk''))"
    by (simp add: store_of_def)
  with sha have "p_sha pargs = Some ''3b18e5''" by blast
  then show ?thesis using tr by simp
qed

end
